theory Spec2Isabelle
  imports Main
begin

section \<open>The request compiler of graphjoiner (requests.py)\<close>

text \<open>
  The module turns a parsed GraphQL document into a tree of \<open>Request\<close> objects and
  splits off the introspection selection. The embedding follows the Python function by
  function. Exceptions are values of the type \<open>error\<close>; a function that may raise
  returns \<open>error + 'a\<close> with \<open>Inl\<close> for the exception.
\<close>

subsection \<open>Syntax trees, as the parser of graphql-core delivers them\<close>

text \<open>
  A selection list is a Python list object. The only lists this module ever changes in
  place are those reached through the \<open>selection_set\<close> of a field node (the
  \<open>+=\<close> of \<open>_merge_fields\<close>, which acts on a shallow copy and so on the list
  of the original node). A field node therefore holds the address of its list, and the
  lists live in a store; the lists of operations, fragment definitions and inline
  fragments are only read and are plain values.
\<close>

type_synonym ref = nat

datatype ast_value = Variable string | BooleanValue bool | IntValue int | StringValue string

datatype py_value = VBool bool | VInt int | VStr string

type_synonym argument = "string \<times> ast_value"

record directive =
  directive_name :: string
  directive_arguments :: "argument list"

record field_ast =
  field_alias :: "string option"
  name :: string
  arguments :: "argument list"
  directives :: "directive list"
  selection_set :: "ref option"

datatype selection =
    Field field_ast
  | FragmentSpread string "directive list"
  | InlineFragment "string option" "directive list" "selection list"

type_synonym heap = "ref \<Rightarrow> selection list"

datatype definition_node =
    OperationDefinition (operation: string) (operation_name: "string option")
      (operation_selections: "selection list")
  | FragmentDefinition (fragment_name: string) (type_condition: string)
      (fragment_selections: "selection list")

record document =
  definitions :: "definition_node list"

type_synonym variables = "string \<rightharpoonup> py_value"

type_synonym fragments = "string \<rightharpoonup> definition_node"

subsection \<open>Exceptions\<close>

text \<open>
  \<open>KeyError\<close> is what a failed dictionary lookup raises, \<open>AttributeError\<close> what
  an attribute read on \<open>None\<close> (or on a node without that attribute) raises,
  \<open>Exception\<close> carries the message of the explicit \<open>raise Exception(...)\<close>,
  \<open>RecursionError\<close> is the interpreter's answer to a call stack deeper than its
  limit, and \<open>GraphQLError\<close> stands for whatever the argument resolver raises.
  \<open>NoOperationError\<close> and \<open>MultipleOperationsError\<close> are the two failures of
  \<open>single\<close>.
\<close>

datatype error =
    KeyError string
  | AttributeError
  | Exception string
  | RecursionError
  | GraphQLError string
  | NoOperationError
  | MultipleOperationsError

subsection \<open>The schema and the argument resolver, taken as parameters\<close>

text \<open>
  A type of the schema is an object with a method \<open>fields()\<close>; a field descriptor has
  a \<open>target\<close> type and the declared arguments \<open>args\<close>. Types may refer to each
  other in cycles, so a type is named by a \<open>type_ref\<close> and the registry maps it to
  its \<open>fields()\<close> dictionary. \<open>get_argument_values\<close> belongs to graphql-core; the
  functions below take it as the parameter \<open>gav\<close>. The dictionary it returns is an
  association list read with \<open>map_of\<close>.
\<close>

type_synonym type_ref = string

datatype graphql_type = GraphQLBoolean | GraphQLInt | GraphQLString | GraphQLNonNull graphql_type

type_synonym arg_defs = "(string \<times> graphql_type) list"

type_synonym arg_values = "(string \<times> py_value) list"

record field_descriptor =
  target :: type_ref
  args :: arg_defs

type_synonym registry = "type_ref \<Rightarrow> (string \<rightharpoonup> field_descriptor)"

type_synonym resolver = "arg_defs \<Rightarrow> argument list \<Rightarrow> variables \<Rightarrow> error + arg_values"

definition GraphQLSkipDirective_args :: arg_defs where
  "GraphQLSkipDirective_args = [(''if'', GraphQLNonNull GraphQLBoolean)]"

definition GraphQLIncludeDirective_args :: arg_defs where
  "GraphQLIncludeDirective_args = [(''if'', GraphQLNonNull GraphQLBoolean)]"

subsection \<open>The result types\<close>

datatype request = Request
  (key: "string option")
  (field: "field_descriptor option")
  (request_args: arg_values)
  (selections: "request list option")
  (join_selections: "request list")

record document_request =
  query :: request
  schema_query :: "document option"

subsection \<open>The helpers of util.py\<close>

text \<open>
  Modelled from the spec: \<open>single\<close> of \<open>graphjoiner/util.py\<close>, which is not among
  the sources. The spec: "Require exactly one operation definition among the document's
  top-level definitions (else NoOperationError/MultipleOperationsError)".
\<close>

fun single :: "'a list \<Rightarrow> error + 'a" where
  "single [] = Inl NoOperationError"
| "single [x] = Inr x"
| "single (x # y # zs) = Inl MultipleOperationsError"

text \<open>
  Modelled from the spec: \<open>find\<close> of \<open>graphjoiner/util.py\<close>, which is not among
  the sources. The caller tests its result against \<open>None\<close> and otherwise uses it as
  the selection found ("If the operation's top-level selection set names the reserved
  introspection meta-field"): the first element that satisfies the predicate, \<open>None\<close>
  when there is none. The predicate may raise, which ends the search.
\<close>

fun find_py :: "('a \<Rightarrow> error + bool) \<Rightarrow> 'a list \<Rightarrow> error + 'a option" where
  "find_py p [] = Inr None"
| "find_py p (x # xs) =
     (case p x of
        Inl e \<Rightarrow> Inl e
      | Inr True \<Rightarrow> Inr (Some x)
      | Inr False \<Rightarrow> find_py p xs)"

subsection \<open>Names and keys\<close>

definition field_name :: "field_ast \<Rightarrow> string" where
  "field_name ast = name ast"

definition field_key :: "field_ast \<Rightarrow> string" where
  "field_key ast = (case field_alias ast of None \<Rightarrow> field_name ast | Some a \<Rightarrow> a)"

text \<open>
  \<open>selection.name.value\<close> as the lambda of \<open>request_from_graphql_document\<close> reads
  it: fields and fragment spreads have a name, an inline fragment has no such attribute.
\<close>

fun selection_name :: "selection \<Rightarrow> error + string" where
  "selection_name (Field f) = Inr (name f)"
| "selection_name (FragmentSpread n ds) = Inr n"
| "selection_name (InlineFragment tc ds ss) = Inl AttributeError"

fun selection_directives :: "selection \<Rightarrow> directive list" where
  "selection_directives (Field f) = directives f"
| "selection_directives (FragmentSpread n ds) = ds"
| "selection_directives (InlineFragment tc ds ss) = ds"

subsection \<open>The directive evaluator\<close>

fun should_include_directives :: "resolver \<Rightarrow> directive list \<Rightarrow> variables \<Rightarrow> error + bool" where
  "should_include_directives gav [] vars = Inr True"
| "should_include_directives gav (d # ds) vars =
     (if directive_name d = ''skip'' then
        (case gav GraphQLSkipDirective_args (directive_arguments d) vars of
           Inl e \<Rightarrow> Inl e
         | Inr a \<Rightarrow>
             if map_of a ''if'' = Some (VBool True) then Inr False
             else should_include_directives gav ds vars)
      else if directive_name d = ''include'' then
        (case gav GraphQLIncludeDirective_args (directive_arguments d) vars of
           Inl e \<Rightarrow> Inl e
         | Inr a \<Rightarrow>
             if map_of a ''if'' = Some (VBool False) then Inr False
             else should_include_directives gav ds vars)
      else Inl (Exception (''Unknown directive: '' @ directive_name d)))"

definition should_include_node :: "resolver \<Rightarrow> selection \<Rightarrow> variables \<Rightarrow> error + bool" where
  "should_include_node gav node vars =
     should_include_directives gav (selection_directives node) vars"

subsection \<open>The fragment resolver\<close>

text \<open>
  \<open>_add_fields\<close> appends to the list \<open>field_selections\<close>; the model passes the list
  and returns it extended. The first argument is the call depth still available: each
  nested call of \<open>_add_fields\<close> (for a spread or an inline fragment) spends one, the
  loop over one selection set spends none.
\<close>

fun add_fields ::
  "nat \<Rightarrow> resolver \<Rightarrow> selection list \<Rightarrow> field_ast list \<Rightarrow> fragments \<Rightarrow> variables
     \<Rightarrow> error + field_ast list" where
  "add_fields 0 gav ss field_selections frags vars = Inl RecursionError"
| "add_fields (Suc n) gav [] field_selections frags vars = Inr field_selections"
| "add_fields (Suc n) gav (s # ss) field_selections frags vars =
     (case should_include_node gav s vars of
        Inl e \<Rightarrow> Inl e
      | Inr False \<Rightarrow> add_fields (Suc n) gav ss field_selections frags vars
      | Inr True \<Rightarrow>
          (case s of
             Field f \<Rightarrow> add_fields (Suc n) gav ss (field_selections @ [f]) frags vars
           | FragmentSpread nm ds \<Rightarrow>
               (case frags nm of
                  None \<Rightarrow> Inl (KeyError nm)
                | Some d \<Rightarrow>
                    (case add_fields n gav (fragment_selections d) field_selections frags vars of
                       Inl e \<Rightarrow> Inl e
                     | Inr fs \<Rightarrow> add_fields (Suc n) gav ss fs frags vars))
           | InlineFragment tc ds sub \<Rightarrow>
               (case add_fields n gav sub field_selections frags vars of
                  Inl e \<Rightarrow> Inl e
                | Inr fs \<Rightarrow> add_fields (Suc n) gav ss fs frags vars)))"

definition collect_fields ::
  "nat \<Rightarrow> resolver \<Rightarrow> selection list \<Rightarrow> fragments \<Rightarrow> variables \<Rightarrow> error + field_ast list" where
  "collect_fields n gav ss frags vars = add_fields n gav ss [] frags vars"

subsection \<open>The field merger\<close>

text \<open>
  \<open>merged\<close> is the \<open>OrderedDict\<close>: an association list in insertion order with
  one entry for each key. For a key already present and an incoming selection with a
  selection set, the code copies the stored node and its selection set (both copies are
  shallow, so the copy still holds the stored node's list) and extends that list in
  place by the incoming list; reading \<open>.selections\<close> of the copy of an absent
  selection set raises \<open>AttributeError\<close>. The stored node itself keeps its value.
\<close>

fun merge_loop ::
  "heap \<Rightarrow> (string \<times> field_ast) list \<Rightarrow> field_ast list
     \<Rightarrow> error + ((string \<times> field_ast) list \<times> heap)" where
  "merge_loop h merged [] = Inr (merged, h)"
| "merge_loop h merged (selection # rest) =
     (case map_of merged (field_key selection) of
        Some stored \<Rightarrow>
          (case selection_set selection of
             None \<Rightarrow> merge_loop h merged rest
           | Some r_in \<Rightarrow>
               (case selection_set stored of
                  None \<Rightarrow> Inl AttributeError
                | Some r_st \<Rightarrow> merge_loop (h(r_st := h r_st @ h r_in)) merged rest))
      | None \<Rightarrow> merge_loop h (merged @ [(field_key selection, selection)]) rest)"

definition merge_fields :: "heap \<Rightarrow> field_ast list \<Rightarrow> error + (field_ast list \<times> heap)" where
  "merge_fields h sels =
     (case merge_loop h [] sels of
        Inl e \<Rightarrow> Inl e
      | Inr (merged, h') \<Rightarrow> Inr (map snd merged, h'))"

subsection \<open>The request tree builder\<close>

text \<open>
  The two shapes of \<open>ast\<close> that \<open>request_from_graphql_ast\<close> receives: the operation
  (from the document compiler) and a field (from \<open>_request_from_selection\<close>).
\<close>

datatype ast_node = OperationAst definition_node | FieldAst field_ast

fun ast_selection_set :: "heap \<Rightarrow> ast_node \<Rightarrow> selection list option" where
  "ast_selection_set h (OperationAst d) = Some (operation_selections d)"
| "ast_selection_set h (FieldAst f) = map_option h (selection_set f)"

fun ast_arguments :: "ast_node \<Rightarrow> argument list" where
  "ast_arguments (OperationAst d) = []"
| "ast_arguments (FieldAst f) = arguments f"

text \<open>
  The list comprehension of \<open>_graphql_selections\<close>: the elements are built from left
  to right, each on the store its predecessors left, and the first exception ends it.
\<close>

fun comprehension ::
  "(heap \<Rightarrow> 'a \<Rightarrow> error + ('b \<times> heap)) \<Rightarrow> heap \<Rightarrow> 'a list \<Rightarrow> error + ('b list \<times> heap)" where
  "comprehension f h [] = Inr ([], h)"
| "comprehension f h (x # xs) =
     (case f h x of
        Inl e \<Rightarrow> Inl e
      | Inr (y, h1) \<Rightarrow>
          (case comprehension f h1 xs of
             Inl e \<Rightarrow> Inl e
           | Inr (ys, h2) \<Rightarrow> Inr (y # ys, h2)))"

text \<open>
  \<open>_graphql_selections\<close> and \<open>_request_from_selection\<close> call back into
  \<open>request_from_graphql_ast\<close>; here that call is the parameter \<open>rec\<close>, which
  \<open>request_from_graphql_ast\<close> instantiates with itself at one level less of depth.
\<close>

definition request_from_selection ::
  "(heap \<Rightarrow> ast_node \<Rightarrow> type_ref \<Rightarrow> field_descriptor option \<Rightarrow> error + (request \<times> heap))
     \<Rightarrow> heap \<Rightarrow> field_ast \<Rightarrow> field_descriptor \<Rightarrow> error + (request \<times> heap)" where
  "request_from_selection rec h selection fd = rec h (FieldAst selection) (target fd) (Some fd)"

definition build_child ::
  "(heap \<Rightarrow> ast_node \<Rightarrow> type_ref \<Rightarrow> field_descriptor option \<Rightarrow> error + (request \<times> heap))
     \<Rightarrow> (string \<rightharpoonup> field_descriptor) \<Rightarrow> heap \<Rightarrow> field_ast \<Rightarrow> error + (request \<times> heap)" where
  "build_child rec flds h selection =
     (case flds (field_name selection) of
        None \<Rightarrow> Inl (KeyError (field_name selection))
      | Some fd \<Rightarrow> request_from_selection rec h selection fd)"

definition graphql_selections ::
  "(heap \<Rightarrow> ast_node \<Rightarrow> type_ref \<Rightarrow> field_descriptor option \<Rightarrow> error + (request \<times> heap))
     \<Rightarrow> nat \<Rightarrow> resolver \<Rightarrow> registry \<Rightarrow> heap \<Rightarrow> ast_node \<Rightarrow> type_ref \<Rightarrow> variables \<Rightarrow> fragments
     \<Rightarrow> error + (request list option \<times> heap)" where
  "graphql_selections rec n gav reg h ast root vars frags =
     (case ast_selection_set h ast of
        None \<Rightarrow> Inr (None, h)
      | Some ss \<Rightarrow>
          (case collect_fields n gav ss frags vars of
             Inl e \<Rightarrow> Inl e
           | Inr collected \<Rightarrow>
               (case merge_fields h collected of
                  Inl e \<Rightarrow> Inl e
                | Inr (field_selections, h1) \<Rightarrow>
                    (case comprehension (build_child rec (reg root)) h1
                            (filter (\<lambda>s. field_name s \<noteq> ''__schema'') field_selections) of
                       Inl e \<Rightarrow> Inl e
                     | Inr (rs, h2) \<Rightarrow> Inr (Some rs, h2)))))"

fun request_from_graphql_ast ::
  "nat \<Rightarrow> resolver \<Rightarrow> registry \<Rightarrow> heap \<Rightarrow> ast_node \<Rightarrow> type_ref \<Rightarrow> variables
     \<Rightarrow> field_descriptor option \<Rightarrow> fragments \<Rightarrow> error + (request \<times> heap)" where
  "request_from_graphql_ast 0 gav reg h ast root vars fld frags = Inl RecursionError"
| "request_from_graphql_ast (Suc n) gav reg h ast root vars fld frags =
     (let k = (case ast of FieldAst f \<Rightarrow> Some (field_key f) | OperationAst d \<Rightarrow> None) in
      case (case fld of
              None \<Rightarrow> Inr []
            | Some fd \<Rightarrow> gav (args fd) (ast_arguments ast) vars) of
        Inl e \<Rightarrow> Inl e
      | Inr a \<Rightarrow>
          (case graphql_selections
                  (\<lambda>h' ast' root' fld'. request_from_graphql_ast n gav reg h' ast' root' vars fld' frags)
                  n gav reg h ast root vars frags of
             Inl e \<Rightarrow> Inl e
           | Inr (sels, h') \<Rightarrow> Inr (Request k fld a sels [], h')))"

subsection \<open>The document compiler\<close>

fun is_fragment :: "definition_node \<Rightarrow> bool" where
  "is_fragment (FragmentDefinition n tc ss) = True"
| "is_fragment (OperationDefinition k n ss) = False"

fun is_operation :: "definition_node \<Rightarrow> bool" where
  "is_operation (OperationDefinition k n ss) = True"
| "is_operation (FragmentDefinition n tc ss) = False"

text \<open>
  \<open>dict(...)\<close> over the fragment definitions: of two definitions with one name the
  later one stays.
\<close>

definition fragments_of :: "document \<Rightarrow> fragments" where
  "fragments_of doc =
     map_of (rev (map (\<lambda>d. (fragment_name d, d)) (filter is_fragment (definitions doc))))"

definition is_schema_selection :: "selection \<Rightarrow> error + bool" where
  "is_schema_selection s =
     (case selection_name s of Inl e \<Rightarrow> Inl e | Inr n \<Rightarrow> Inr (n = ''__schema''))"

definition request_from_graphql_document ::
  "nat \<Rightarrow> resolver \<Rightarrow> registry \<Rightarrow> heap \<Rightarrow> document \<Rightarrow> type_ref \<Rightarrow> type_ref \<Rightarrow> variables
     \<Rightarrow> error + (document_request \<times> heap)" where
  "request_from_graphql_document n gav reg h doc query_root mutation_root vars =
     (let frags = fragments_of doc in
      case single (filter (\<lambda>p. is_operation (snd p)) (enumerate 0 (definitions doc))) of
        Inl e \<Rightarrow> Inl e
      | Inr (definition_index, op) \<Rightarrow>
          (let root = (if operation op = ''mutation'' then mutation_root else query_root) in
           case find_py is_schema_selection (operation_selections op) of
             Inl e \<Rightarrow> Inl e
           | Inr schema_selection \<Rightarrow>
               (let sq =
                  (case schema_selection of
                     None \<Rightarrow> None
                   | Some s \<Rightarrow>
                       Some (doc\<lparr>definitions :=
                         (definitions doc)[definition_index :=
                            OperationDefinition (operation op) (operation_name op) [s]]\<rparr>))
                in
                case request_from_graphql_ast n gav reg h (OperationAst op) root vars None frags of
                  Inl e \<Rightarrow> Inl e
                | Inr (q, h') \<Rightarrow> Inr (\<lparr>query = q, schema_query = sq\<rparr>, h'))))"

subsection \<open>Notions used to state the properties\<close>

text \<open>
  The first selection of each output key, in the order in which the keys first
  appear; \<open>seen\<close> holds the keys met so far.
\<close>

fun first_seen :: "string list \<Rightarrow> field_ast list \<Rightarrow> field_ast list" where
  "first_seen seen [] = []"
| "first_seen seen (s # ss) =
     (if field_key s \<in> set seen then first_seen seen ss
      else s # first_seen (field_key s # seen) ss)"

text \<open>
  A directive excludes its selection when it is a skip whose \<open>if\<close> resolves to
  \<open>True\<close> or an include whose \<open>if\<close> resolves to \<open>False\<close>; it is evaluated
  when its name is one of the two and the resolver returns for its arguments.
\<close>

definition excludes :: "resolver \<Rightarrow> variables \<Rightarrow> directive \<Rightarrow> bool" where
  "excludes gav vars d =
     (if directive_name d = ''skip'' then
        (case gav GraphQLSkipDirective_args (directive_arguments d) vars of
           Inl e \<Rightarrow> False
         | Inr a \<Rightarrow> map_of a ''if'' = Some (VBool True))
      else if directive_name d = ''include'' then
        (case gav GraphQLIncludeDirective_args (directive_arguments d) vars of
           Inl e \<Rightarrow> False
         | Inr a \<Rightarrow> map_of a ''if'' = Some (VBool False))
      else False)"

definition evaluated :: "resolver \<Rightarrow> variables \<Rightarrow> directive \<Rightarrow> bool" where
  "evaluated gav vars d =
     (if directive_name d = ''skip'' then
        (case gav GraphQLSkipDirective_args (directive_arguments d) vars of
           Inl e \<Rightarrow> False
         | Inr a \<Rightarrow> True)
      else if directive_name d = ''include'' then
        (case gav GraphQLIncludeDirective_args (directive_arguments d) vars of
           Inl e \<Rightarrow> False
         | Inr a \<Rightarrow> True)
      else False)"

text \<open>
  A request tree is resolved against a type when every child carries a descriptor that
  the registry of that type holds, and is itself resolved against the descriptor's
  target type.
\<close>

fun resolved :: "registry \<Rightarrow> type_ref \<Rightarrow> request \<Rightarrow> bool" where
  "resolved reg t (Request k f a sels js) =
     (case sels of
        None \<Rightarrow> True
      | Some rs \<Rightarrow>
          (\<forall>c \<in> set rs. \<exists>fd nm. field c = Some fd \<and> reg t nm = Some fd
                        \<and> resolved reg (target fd) c))"

subsection \<open>Example data\<close>

text \<open>
  A resolver for the examples. It stands in for \<open>get_argument_values\<close> of
  graphql-core on literals and variables: each declared argument gets the value of its
  literal or of the variable it names; an argument that is not given, or whose variable
  is unbound, is left out of the result.
\<close>

fun value_from_ast :: "ast_value \<Rightarrow> variables \<Rightarrow> py_value option" where
  "value_from_ast (Variable v) vars = vars v"
| "value_from_ast (BooleanValue b) vars = Some (VBool b)"
| "value_from_ast (IntValue i) vars = Some (VInt i)"
| "value_from_ast (StringValue s) vars = Some (VStr s)"

definition example_resolver :: resolver where
  "example_resolver defs asts vars =
     Inr (concat (map (\<lambda>(n, t).
            case map_of asts n of
              None \<Rightarrow> []
            | Some a \<Rightarrow> (case value_from_ast a vars of None \<Rightarrow> [] | Some v \<Rightarrow> [(n, v)])) defs))"

definition leaf :: "string \<Rightarrow> field_ast" where
  "leaf n = \<lparr>field_alias = None, name = n, arguments = [], directives = [], selection_set = None\<rparr>"

definition branch :: "string \<Rightarrow> ref \<Rightarrow> field_ast" where
  "branch n r = \<lparr>field_alias = None, name = n, arguments = [], directives = [], selection_set = Some r\<rparr>"

definition scalar :: field_descriptor where
  "scalar = \<lparr>target = ''String'', args = []\<rparr>"

definition relation_to :: "type_ref \<Rightarrow> field_descriptor" where
  "relation_to t = \<lparr>target = t, args = []\<rparr>"

text \<open>A root type with the scalar fields a and b and a relationship p to a type with the scalar fields x and y.\<close>

definition example_registry :: registry where
  "example_registry =
     (\<lambda>t. Map.empty)
       (''Root'' := [''a'' \<mapsto> scalar, ''b'' \<mapsto> scalar, ''p'' \<mapsto> relation_to ''P''],
        ''P'' := [''x'' \<mapsto> scalar, ''y'' \<mapsto> scalar])"

definition query_doc :: "selection list \<Rightarrow> document" where
  "query_doc ss = \<lparr>definitions = [OperationDefinition ''query'' None ss]\<rparr>"

definition empty_heap :: heap where
  "empty_heap = (\<lambda>r. [])"

section \<open>Lemmas about the merger\<close>

lemma first_seen_cong: "set seen = set seen' \<Longrightarrow> first_seen seen ss = first_seen seen' ss"
proof (induction ss arbitrary: seen seen')
  case Nil
  then show ?case by simp
next
  case (Cons s ss)
  have "first_seen (field_key s # seen) ss = first_seen (field_key s # seen') ss"
    by (rule Cons.IH) (simp add: Cons.prems)
  moreover have "first_seen seen ss = first_seen seen' ss"
    by (rule Cons.IH) (rule Cons.prems)
  ultimately show ?case using Cons.prems by simp
qed

lemma merge_loop_shape:
  "merge_loop h m sels = Inr (m', h') \<Longrightarrow>
     m' = m @ map (\<lambda>s. (field_key s, s)) (first_seen (map fst m) sels)"
proof (induction sels arbitrary: h m)
  case Nil
  then show ?case by simp
next
  case (Cons s ss)
  show ?case
  proof (cases "map_of m (field_key s)")
    case None
    then have notin: "field_key s \<notin> set (map fst m)"
      by (simp add: map_of_eq_None_iff)
    from Cons.prems None have "merge_loop h (m @ [(field_key s, s)]) ss = Inr (m', h')"
      by simp
    from Cons.IH [OF this]
    have "m' = m @ (field_key s, s) #
            map (\<lambda>s. (field_key s, s)) (first_seen (map fst m @ [field_key s]) ss)"
      by simp
    moreover have "first_seen (map fst m @ [field_key s]) ss
        = first_seen (field_key s # map fst m) ss"
      by (rule first_seen_cong) auto
    ultimately show ?thesis using notin by simp
  next
    case (Some stored)
    then have isin: "field_key s \<in> set (map fst m)"
      by (metis map_of_eq_None_iff option.distinct(1) set_map)
    from Cons.prems Some obtain h1 where "merge_loop h1 m ss = Inr (m', h')"
      by (auto split: option.splits)
    from Cons.IH [OF this] isin show ?thesis by simp
  qed
qed

lemma merge_fields_first_seen:
  "merge_fields h sels = Inr (ms, h') \<Longrightarrow> ms = first_seen [] sels"
  by (auto simp: merge_fields_def comp_def split: sum.splits dest!: merge_loop_shape)

lemma first_seen_fresh: "s \<in> set (first_seen seen ss) \<Longrightarrow> field_key s \<notin> set seen"
  by (induction seen ss rule: first_seen.induct) (auto split: if_splits)

lemma first_seen_keys:
  "field_key ` set (first_seen seen ss) = field_key ` set ss - set seen"
  by (induction seen ss rule: first_seen.induct) auto

lemma first_seen_distinct:
  "distinct (map field_key (first_seen seen ss))"
  by (induction seen ss rule: first_seen.induct) (auto dest: first_seen_fresh)

lemma merge_loop_append:
  "merge_loop h m (xs @ ys) =
     (case merge_loop h m xs of Inl e \<Rightarrow> Inl e | Inr (m', h') \<Rightarrow> merge_loop h' m' ys)"
proof (induction xs arbitrary: h m)
  case Nil
  then show ?case by simp
next
  case (Cons x xs)
  show ?case
  proof (cases "map_of m (field_key x)")
    case None
    then show ?thesis by (simp add: Cons.IH)
  next
    case (Some stored)
    show ?thesis
    proof (cases "selection_set x")
      case None
      with Some show ?thesis by (simp add: Cons.IH)
    next
      case inc: (Some r_in)
      show ?thesis
      proof (cases "selection_set stored")
        case None
        with Some inc show ?thesis by simp
      next
        case st: (Some r_st)
        have "merge_loop h m ((x # xs) @ ys) = merge_loop (h(r_st := h r_st @ h r_in)) m (xs @ ys)"
          using Some inc st by simp
        also have "\<dots> = (case merge_loop (h(r_st := h r_st @ h r_in)) m xs of
              Inl e \<Rightarrow> Inl e | Inr (m', h') \<Rightarrow> merge_loop h' m' ys)"
          by (rule Cons.IH)
        also have "merge_loop (h(r_st := h r_st @ h r_in)) m xs = merge_loop h m (x # xs)"
          using Some inc st by simp
        finally show ?thesis .
      qed
    qed
  qed
qed

lemma merge_loop_keys_grow:
  "merge_loop h m xs = Inr (m', h') \<Longrightarrow> k \<in> fst ` set m \<union> field_key ` set xs \<Longrightarrow> map_of m' k \<noteq> None"
  by (drule merge_loop_shape) (auto simp: map_of_eq_None_iff first_seen_keys image_Un image_image)

lemma merge_fields_repeat_leaf:
  assumes "selection_set s = None" and "field_key s \<in> field_key ` set xs"
  shows "merge_fields h (xs @ s # ys) = merge_fields h (xs @ ys)"
proof (cases "merge_loop h [] xs")
  case (Inl e)
  then show ?thesis by (simp add: merge_fields_def merge_loop_append)
next
  case (Inr p)
  obtain m' h' where p: "p = (m', h')" by (cases p)
  with Inr assms(2) have "map_of m' (field_key s) \<noteq> None"
    using merge_loop_keys_grow [of h "[]" xs m' h' "field_key s"] by simp
  with Inr p assms(1) show ?thesis
    by (auto simp: merge_fields_def merge_loop_append)
qed

section \<open>Lemmas about compiling small documents\<close>

lemma compile_single_operation:
  "request_from_graphql_document n gav reg h \<lparr>definitions = [OperationDefinition k nm ss]\<rparr> qr mr vars =
     (case find_py is_schema_selection ss of
        Inl e \<Rightarrow> Inl e
      | Inr sch \<Rightarrow>
          (case request_from_graphql_ast n gav reg h (OperationAst (OperationDefinition k nm ss))
                  (if k = ''mutation'' then mr else qr) vars None Map.empty of
             Inl e \<Rightarrow> Inl e
           | Inr (q, h') \<Rightarrow>
               Inr (\<lparr>query = q,
                     schema_query = map_option (\<lambda>s. \<lparr>definitions = [OperationDefinition k nm [s]]\<rparr>) sch\<rparr>, h')))"
  by (simp add: request_from_graphql_document_def fragments_of_def Let_def
        split: sum.splits option.splits)

lemma should_include_leaf [simp]: "should_include_node gav (Field (leaf n)) vars = Inr True"
  by (simp add: should_include_node_def leaf_def)

lemma leaf_simps [simp]:
  "field_key (leaf n) = n" "field_name (leaf n) = n" "selection_set (leaf n) = None"
  "arguments (leaf n) = []" "name (leaf n) = n"
  by (simp_all add: leaf_def field_key_def field_name_def)

lemma request_leaf:
  "gav (args fd) [] vars = Inr a \<Longrightarrow>
   request_from_graphql_ast (Suc n) gav reg h (FieldAst (leaf nm)) root vars (Some fd) frags
     = Inr (Request (Some nm) (Some fd) a None [], h)"
  by (simp add: graphql_selections_def)

lemma compile_b_a_b:
  assumes "reg root ''a'' = Some fa" and "reg root ''b'' = Some fb"
    and "gav (args fa) [] vars = Inr va" and "gav (args fb) [] vars = Inr vb"
  shows "request_from_graphql_document (Suc (Suc n)) gav reg h
           (query_doc [Field (leaf ''b''), Field (leaf ''a''), Field (leaf ''b'')]) root mroot vars
         = Inr (\<lparr>query = Request None None [] (Some [Request (Some ''b'') (Some fb) vb None [],
                     Request (Some ''a'') (Some fa) va None []]) [],
                 schema_query = None\<rparr>, h)"
  using assms
  by (simp add: query_doc_def compile_single_operation is_schema_selection_def
        graphql_selections_def collect_fields_def merge_fields_def build_child_def
        request_from_selection_def request_leaf)


lemma first_seen_snoc:
  "first_seen seen (xs @ [s]) =
     first_seen seen xs @ (if field_key s \<in> set seen \<union> field_key ` set xs then [] else [s])"
  by (induction seen xs rule: first_seen.induct) auto

lemma collect_twice:
  "collect_fields n gav [Field a, Field a] frags vars =
     (case collect_fields n gav [Field a] frags vars of
        Inl e \<Rightarrow> Inl e
      | Inr fs \<Rightarrow> Inr (fs @ fs))"
  by (cases n) (auto simp: collect_fields_def split: sum.splits bool.splits)

lemma collect_one:
  "collect_fields n gav [Field a] frags vars = Inr fs \<Longrightarrow> fs = [] \<or> fs = [a]"
  by (cases n) (auto simp: collect_fields_def split: sum.splits bool.splits)

lemma merge_twice:
  assumes "selection_set a = None" and "fs = [] \<or> fs = [a]"
  shows "merge_fields h (fs @ fs) = merge_fields h fs"
  using assms merge_fields_repeat_leaf [of a "[a]" h "[]"] by auto

lemma selections_twice:
  assumes "selection_set a = None"
  shows "graphql_selections rec n gav reg h (OperationAst (OperationDefinition k nm [Field a, Field a])) root vars frags
       = graphql_selections rec n gav reg h (OperationAst (OperationDefinition k nm [Field a])) root vars frags"
proof (cases "collect_fields n gav [Field a] frags vars")
  case (Inl e)
  then show ?thesis by (simp add: graphql_selections_def collect_twice)
next
  case (Inr fs)
  from collect_one [OF Inr] assms have "merge_fields h (fs @ fs) = merge_fields h fs"
    by (rule merge_twice [rotated])
  with Inr show ?thesis by (simp add: graphql_selections_def collect_twice)
qed

lemma compile_twice:
  assumes "selection_set a = None"
  shows "request_from_graphql_document n gav reg h
            \<lparr>definitions = [OperationDefinition k nm [Field a, Field a]]\<rparr> qr mr vars
       = request_from_graphql_document n gav reg h
            \<lparr>definitions = [OperationDefinition k nm [Field a]]\<rparr> qr mr vars"
proof -
  have f: "find_py is_schema_selection [Field a, Field a] = find_py is_schema_selection [Field a]"
    by (simp add: is_schema_selection_def split: bool.splits)
  have r: "request_from_graphql_ast n gav reg h (OperationAst (OperationDefinition k nm [Field a, Field a])) root vars None frags
     = request_from_graphql_ast n gav reg h (OperationAst (OperationDefinition k nm [Field a])) root vars None frags"
    for root frags
    by (cases n) (simp_all add: selections_twice [OF assms])
  show ?thesis
    unfolding compile_single_operation f r ..
qed

lemma branch_simps [simp]:
  "field_key (branch n r) = n" "field_name (branch n r) = n" "selection_set (branch n r) = Some r"
  "arguments (branch n r) = []" "name (branch n r) = n"
  by (simp_all add: branch_def field_key_def field_name_def)

lemma should_include_node_plain [simp]: "should_include_node gav (Field (branch n r)) vars = Inr True"
  by (simp add: should_include_node_def branch_def)

lemma example_registry_root [simp]:
  "example_registry ''Root'' ''a'' = Some scalar" "example_registry ''Root'' ''b'' = Some scalar"
  "example_registry ''Root'' ''p'' = Some (relation_to ''P'')"
  "example_registry ''P'' ''x'' = Some scalar" "example_registry ''P'' ''y'' = Some scalar"
  by (simp_all add: example_registry_def)

lemma descriptor_simps [simp]:
  "target (relation_to t) = t" "args (relation_to t) = []"
  "target scalar = ''String''" "args scalar = []"
  by (simp_all add: relation_to_def scalar_def)

lemma example_resolver_no_args [simp]:
  "example_resolver [] asts vars = Inr []"
  by (simp add: example_resolver_def)

section \<open>Lemmas about the directive evaluator\<close>

lemma should_include_directives_excludes:
  "should_include_directives gav ds vars = Inr b \<Longrightarrow>
     b = (\<not> (\<exists>d \<in> set ds. excludes gav vars d))"
proof (induction ds)
  case Nil
  then show ?case by auto
next
  case (Cons d ds)
  show ?case
  proof (cases "excludes gav vars d")
    case True
    with Cons.prems show ?thesis
      by (auto simp: excludes_def split: if_splits sum.splits)
  next
    case False
    with Cons.prems have "should_include_directives gav ds vars = Inr b"
      by (auto simp: excludes_def split: if_splits sum.splits)
    from Cons.IH [OF this] False show ?thesis by simp
  qed
qed

lemma should_include_directives_evaluated:
  "\<forall>d \<in> set ds. evaluated gav vars d \<Longrightarrow>
     should_include_directives gav ds vars = Inr (\<forall>d \<in> set ds. \<not> excludes gav vars d)"
proof (induction ds)
  case Nil
  then show ?case by simp
next
  case (Cons d ds)
  then have IH: "should_include_directives gav ds vars = Inr (\<forall>d \<in> set ds. \<not> excludes gav vars d)"
    by simp
  from Cons.prems have "evaluated gav vars d" by simp
  then show ?case
    by (auto simp: IH evaluated_def excludes_def split: if_splits sum.splits)
qed

lemma should_include_directives_missing_if:
  assumes "directive_name d = ''skip'' \<and> gav GraphQLSkipDirective_args (directive_arguments d) vars = Inr a
         \<or> directive_name d = ''include'' \<and> gav GraphQLIncludeDirective_args (directive_arguments d) vars = Inr a"
    and "map_of a ''if'' = None"
  shows "should_include_directives gav (d # ds) vars = should_include_directives gav ds vars"
  using assms by auto

lemma compile_skipped_field:
  assumes "gav GraphQLSkipDirective_args dargs vars = Inr a"
    and "reg root nm = Some fd" and "gav (args fd) [] vars = Inr va" and "nm \<noteq> ''__schema''"
  shows "request_from_graphql_document (Suc (Suc n)) gav reg h
           (query_doc [Field ((leaf nm)\<lparr>directives := [\<lparr>directive_name = ''skip'', directive_arguments = dargs\<rparr>]\<rparr>)])
           root mroot vars
         = Inr (\<lparr>query = Request None None []
                   (Some (if map_of a ''if'' = Some (VBool True) then []
                          else [Request (Some nm) (Some fd) va None []])) [],
                 schema_query = None\<rparr>, h)"
  using assms
  by (simp add: query_doc_def compile_single_operation is_schema_selection_def
        graphql_selections_def collect_fields_def merge_fields_def build_child_def
        request_from_selection_def should_include_node_def leaf_def field_key_def field_name_def)

section \<open>The field merger: order, repetition, one-sided merges\<close>

text \<open>
  C3. Merging preserves first-seen order. Whenever \<open>_merge_fields\<close> returns, its
  result is the first selection of each output key, in the order in which the keys first
  appear: the keys are pairwise distinct and are those of the input. One more selection
  at the end leaves every earlier position alone: it is added at the end when its key is
  new and changes nothing in the list otherwise. Compiling \<open>{b a b}\<close> against a
  type with the fields a and b yields the children b, a in this order.
\<close>

theorem merge_keeps_first_seen_order:
  "(merge_fields h sels = Inr (ms, h') \<longrightarrow>
      ms = first_seen [] sels \<and> distinct (map field_key ms)
      \<and> field_key ` set ms = field_key ` set sels)
   \<and> (merge_fields h sels = Inr (ms, h') \<and> merge_fields h (sels @ [s]) = Inr (ms', h'') \<longrightarrow>
      ms' = (if field_key s \<in> field_key ` set sels then ms else ms @ [s]))
   \<and> (reg root ''a'' = Some fa \<and> reg root ''b'' = Some fb
        \<and> gav (args fa) [] vars = Inr va \<and> gav (args fb) [] vars = Inr vb \<longrightarrow>
      request_from_graphql_document (Suc (Suc n)) gav reg h
          (query_doc [Field (leaf ''b''), Field (leaf ''a''), Field (leaf ''b'')]) root mroot vars
        = Inr (\<lparr>query = Request None None []
                   (Some [Request (Some ''b'') (Some fb) vb None [],
                          Request (Some ''a'') (Some fa) va None []]) [],
                 schema_query = None\<rparr>, h))"
proof (intro conjI impI)
  assume m: "merge_fields h sels = Inr (ms, h')"
  then show fs: "ms = first_seen [] sels"
    by (rule merge_fields_first_seen)
  show "distinct (map field_key ms)"
    unfolding fs by (rule first_seen_distinct)
  show "field_key ` set ms = field_key ` set sels"
    unfolding fs by (simp add: first_seen_keys)
next
  assume "merge_fields h sels = Inr (ms, h') \<and> merge_fields h (sels @ [s]) = Inr (ms', h'')"
  then have "ms = first_seen [] sels" and "ms' = first_seen [] (sels @ [s])"
    by (auto dest: merge_fields_first_seen)
  then show "ms' = (if field_key s \<in> field_key ` set sels then ms else ms @ [s])"
    by (simp add: first_seen_snoc)
next
  assume "reg root ''a'' = Some fa \<and> reg root ''b'' = Some fb
        \<and> gav (args fa) [] vars = Inr va \<and> gav (args fb) [] vars = Inr vb"
  then show "request_from_graphql_document (Suc (Suc n)) gav reg h
          (query_doc [Field (leaf ''b''), Field (leaf ''a''), Field (leaf ''b'')]) root mroot vars
        = Inr (\<lparr>query = Request None None []
                   (Some [Request (Some ''b'') (Some fb) vb None [],
                          Request (Some ''a'') (Some fa) va None []]) [],
                 schema_query = None\<rparr>, h)"
    by (simp add: compile_b_a_b)
qed

theorem merge_keeps_first_seen_order_witness:
  "merge_fields empty_heap [leaf ''b'', leaf ''a'', leaf ''b'']
      = Inr ([leaf ''b'', leaf ''a''], empty_heap)
   \<and> merge_fields empty_heap ([leaf ''b'', leaf ''a'', leaf ''b''] @ [leaf ''a''])
      = Inr ([leaf ''b'', leaf ''a''], empty_heap)
   \<and> [leaf ''b'', leaf ''a''] = first_seen [] [leaf ''b'', leaf ''a'', leaf ''b'']
   \<and> distinct (map field_key [leaf ''b'', leaf ''a''])
   \<and> example_registry ''Root'' ''a'' = Some scalar \<and> example_registry ''Root'' ''b'' = Some scalar
   \<and> example_resolver (args scalar) [] Map.empty = Inr []
   \<and> request_from_graphql_document (Suc (Suc 0)) example_resolver example_registry empty_heap
          (query_doc [Field (leaf ''b''), Field (leaf ''a''), Field (leaf ''b'')])
          ''Root'' ''Mutation'' Map.empty
        = Inr (\<lparr>query = Request None None []
                   (Some [Request (Some ''b'') (Some scalar) [] None [],
                          Request (Some ''a'') (Some scalar) [] None []]) [],
                 schema_query = None\<rparr>, empty_heap)"
proof -
  have m1: "merge_fields empty_heap [leaf ''b'', leaf ''a'', leaf ''b'']
      = Inr ([leaf ''b'', leaf ''a''], empty_heap)"
    by (simp add: merge_fields_def)
  have m2: "merge_fields empty_heap ([leaf ''b'', leaf ''a'', leaf ''b''] @ [leaf ''a''])
      = Inr ([leaf ''b'', leaf ''a''], empty_heap)"
    by (simp add: merge_fields_def)
  show ?thesis
    using m1 m2
      merge_keeps_first_seen_order [where h = empty_heap
        and sels = "[leaf ''b'', leaf ''a'', leaf ''b'']" and ms = "[leaf ''b'', leaf ''a'']"
        and h' = empty_heap and s = "leaf ''a''" and ms' = "[leaf ''b'', leaf ''a'']"
        and h'' = empty_heap and reg = example_registry and root = "''Root''"
        and fa = scalar and fb = scalar and gav = example_resolver and vars = Map.empty
        and va = "[]" and vb = "[]" and n = 0 and mroot = "''Mutation''"]
    by simp
qed

text \<open>
  C4. Merging repeated leaf selections is idempotent. A selection without a selection
  set whose output key is already present leaves the result of \<open>_merge_fields\<close>
  unchanged, wherever it stands after the first selection of that key; and for every
  leaf field a, compiling \<open>{a a}\<close> gives what compiling \<open>{a}\<close> gives.
\<close>

theorem repeated_leaf_is_idempotent:
  "(selection_set s = None \<and> field_key s \<in> field_key ` set xs \<longrightarrow>
      merge_fields h (xs @ s # ys) = merge_fields h (xs @ ys))
   \<and> (selection_set a = None \<longrightarrow>
      request_from_graphql_document n gav reg h
          \<lparr>definitions = [OperationDefinition k nm [Field a, Field a]]\<rparr> qr mr vars
        = request_from_graphql_document n gav reg h
          \<lparr>definitions = [OperationDefinition k nm [Field a]]\<rparr> qr mr vars)"
  using merge_fields_repeat_leaf [of s xs h ys] compile_twice [of a n gav reg h k nm qr mr vars]
  by blast

theorem repeated_leaf_is_idempotent_witness:
  "selection_set (leaf ''a'') = None \<and> field_key (leaf ''a'') \<in> field_key ` set [leaf ''a'']
   \<and> merge_fields empty_heap ([leaf ''a''] @ leaf ''a'' # []) = Inr ([leaf ''a''], empty_heap)
   \<and> merge_fields empty_heap ([leaf ''a''] @ []) = Inr ([leaf ''a''], empty_heap)
   \<and> request_from_graphql_document (Suc (Suc 0)) example_resolver example_registry empty_heap
        \<lparr>definitions = [OperationDefinition ''query'' None [Field (leaf ''a''), Field (leaf ''a'')]]\<rparr>
        ''Root'' ''Mutation'' Map.empty
      = Inr (\<lparr>query = Request None None [] (Some [Request (Some ''a'') (Some scalar) [] None []]) [],
               schema_query = None\<rparr>, empty_heap)
   \<and> request_from_graphql_document (Suc (Suc 0)) example_resolver example_registry empty_heap
        \<lparr>definitions = [OperationDefinition ''query'' None [Field (leaf ''a'')]]\<rparr>
        ''Root'' ''Mutation'' Map.empty
      = Inr (\<lparr>query = Request None None [] (Some [Request (Some ''a'') (Some scalar) [] None []]) [],
               schema_query = None\<rparr>, empty_heap)"
proof -
  have one: "request_from_graphql_document (Suc (Suc 0)) example_resolver example_registry empty_heap
        \<lparr>definitions = [OperationDefinition ''query'' None [Field (leaf ''a'')]]\<rparr>
        ''Root'' ''Mutation'' Map.empty
      = Inr (\<lparr>query = Request None None [] (Some [Request (Some ''a'') (Some scalar) [] None []]) [],
               schema_query = None\<rparr>, empty_heap)"
    by (simp add: compile_single_operation is_schema_selection_def graphql_selections_def
          collect_fields_def merge_fields_def build_child_def request_from_selection_def)
  have m: "merge_fields empty_heap ([leaf ''a''] @ []) = Inr ([leaf ''a''], empty_heap)"
    by (simp add: merge_fields_def)
  show ?thesis
    using one m
      repeated_leaf_is_idempotent [where s = "leaf ''a''" and xs = "[leaf ''a'']" and ys = "[]"
        and h = empty_heap and a = "leaf ''a''" and n = "Suc (Suc 0)" and gav = example_resolver
        and reg = example_registry and k = "''query''" and nm = None and qr = "''Root''"
        and mr = "''Mutation''" and vars = Map.empty]
    by simp
qed

text \<open>
  C6. One-sided merge. The claim holds in one direction only. When the stored selection
  has a selection set and the incoming one has none, the stored entry stays as it is.
  When the stored selection has none and the incoming one has a selection set, the code
  copies the absent selection set and reads \<open>.selections\<close> of the copy, which raises
  \<open>AttributeError\<close>: \<open>{ p p { x } }\<close> fails to compile, \<open>{ p { x } p }\<close>
  compiles to the request for p with the child x.
\<close>

theorem one_sided_merge_raises:
  "merge_fields (empty_heap(0 := [Field (leaf ''x'')])) [leaf ''p'', branch ''p'' 0]
      = Inl AttributeError
   \<and> request_from_graphql_document (Suc (Suc (Suc 0))) example_resolver example_registry
        (empty_heap(0 := [Field (leaf ''x'')]))
        (query_doc [Field (leaf ''p''), Field (branch ''p'' 0)]) ''Root'' ''Mutation'' Map.empty
      = Inl AttributeError
   \<and> request_from_graphql_document (Suc (Suc (Suc 0))) example_resolver example_registry
        (empty_heap(0 := [Field (leaf ''x'')]))
        (query_doc [Field (branch ''p'' 0), Field (leaf ''p'')]) ''Root'' ''Mutation'' Map.empty
      = Inr (\<lparr>query = Request None None []
                 (Some [Request (Some ''p'') (Some (relation_to ''P'')) []
                          (Some [Request (Some ''x'') (Some scalar) [] None []]) []]) [],
               schema_query = None\<rparr>, empty_heap(0 := [Field (leaf ''x'')]))"
  by (simp add: merge_fields_def query_doc_def compile_single_operation
      is_schema_selection_def graphql_selections_def collect_fields_def
      build_child_def request_from_selection_def)

section \<open>The directive evaluator\<close>

text \<open>
  C5. Directive evaluation. Whenever \<open>_should_include_node\<close> returns, the selection is
  excluded exactly when one of its directives is a skip whose \<open>if\<close> resolves to
  \<open>True\<close> or an include whose \<open>if\<close> resolves to \<open>False\<close>; it returns that
  answer whenever every directive is a skip or an include whose arguments resolve, so
  several directives combine by conjunction. A skip or include whose resolved arguments
  hold no \<open>if\<close> changes nothing. Compiling \<open>{ field @skip(...) }\<close> yields no
  request for the field when the \<open>if\<close> resolves to \<open>True\<close> and one request when
  it resolves to anything else or is missing.
\<close>

theorem directives_decide_inclusion:
  "(should_include_node gav node vars = Inr b \<longrightarrow>
      b = (\<not> (\<exists>d \<in> set (selection_directives node). excludes gav vars d)))
   \<and> ((\<forall>d \<in> set (selection_directives node). evaluated gav vars d) \<longrightarrow>
      should_include_node gav node vars
        = Inr (\<forall>d \<in> set (selection_directives node). \<not> excludes gav vars d))
   \<and> ((directive_name d = ''skip''
          \<and> gav GraphQLSkipDirective_args (directive_arguments d) vars = Inr a
        \<or> directive_name d = ''include''
          \<and> gav GraphQLIncludeDirective_args (directive_arguments d) vars = Inr a)
       \<and> map_of a ''if'' = None \<longrightarrow>
      should_include_directives gav (d # ds) vars = should_include_directives gav ds vars)
   \<and> (gav GraphQLSkipDirective_args dargs vars = Inr sa
        \<and> reg root nm = Some fd \<and> gav (args fd) [] vars = Inr va \<and> nm \<noteq> ''__schema'' \<longrightarrow>
      request_from_graphql_document (Suc (Suc n)) gav reg h
          (query_doc [Field ((leaf nm)\<lparr>directives :=
              [\<lparr>directive_name = ''skip'', directive_arguments = dargs\<rparr>]\<rparr>)])
          root mroot vars
        = Inr (\<lparr>query = Request None None []
                   (Some (if map_of sa ''if'' = Some (VBool True) then []
                          else [Request (Some nm) (Some fd) va None []])) [],
                 schema_query = None\<rparr>, h))"
proof (intro conjI impI)
  assume "should_include_node gav node vars = Inr b"
  then show "b = (\<not> (\<exists>d \<in> set (selection_directives node). excludes gav vars d))"
    unfolding should_include_node_def by (rule should_include_directives_excludes)
next
  assume "\<forall>d \<in> set (selection_directives node). evaluated gav vars d"
  then show "should_include_node gav node vars
        = Inr (\<forall>d \<in> set (selection_directives node). \<not> excludes gav vars d)"
    unfolding should_include_node_def by (rule should_include_directives_evaluated)
next
  assume "(directive_name d = ''skip''
          \<and> gav GraphQLSkipDirective_args (directive_arguments d) vars = Inr a
        \<or> directive_name d = ''include''
          \<and> gav GraphQLIncludeDirective_args (directive_arguments d) vars = Inr a)
       \<and> map_of a ''if'' = None"
  then show "should_include_directives gav (d # ds) vars = should_include_directives gav ds vars"
    using should_include_directives_missing_if [of d gav vars a ds] by blast
next
  assume "gav GraphQLSkipDirective_args dargs vars = Inr sa
        \<and> reg root nm = Some fd \<and> gav (args fd) [] vars = Inr va \<and> nm \<noteq> ''__schema''"
  then show "request_from_graphql_document (Suc (Suc n)) gav reg h
          (query_doc [Field ((leaf nm)\<lparr>directives :=
              [\<lparr>directive_name = ''skip'', directive_arguments = dargs\<rparr>]\<rparr>)])
          root mroot vars
        = Inr (\<lparr>query = Request None None []
                   (Some (if map_of sa ''if'' = Some (VBool True) then []
                          else [Request (Some nm) (Some fd) va None []])) [],
                 schema_query = None\<rparr>, h)"
    by (simp add: compile_skipped_field)
qed

theorem directives_decide_inclusion_witness:
  "should_include_node example_resolver
      (Field ((leaf ''a'')\<lparr>directives :=
         [\<lparr>directive_name = ''skip'', directive_arguments = [(''if'', Variable ''x'')]\<rparr>]\<rparr>))
      [''x'' \<mapsto> VBool True] = Inr False
   \<and> evaluated example_resolver [''x'' \<mapsto> VBool True]
        \<lparr>directive_name = ''skip'', directive_arguments = [(''if'', Variable ''x'')]\<rparr>
   \<and> excludes example_resolver [''x'' \<mapsto> VBool True]
        \<lparr>directive_name = ''skip'', directive_arguments = [(''if'', Variable ''x'')]\<rparr>
   \<and> example_resolver GraphQLSkipDirective_args [] [''x'' \<mapsto> VBool True] = Inr []
   \<and> should_include_directives example_resolver
        [\<lparr>directive_name = ''skip'', directive_arguments = []\<rparr>] [''x'' \<mapsto> VBool True] = Inr True
   \<and> request_from_graphql_document (Suc (Suc 0)) example_resolver example_registry empty_heap
        (query_doc [Field ((leaf ''a'')\<lparr>directives :=
           [\<lparr>directive_name = ''skip'', directive_arguments = [(''if'', Variable ''x'')]\<rparr>]\<rparr>)])
        ''Root'' ''Mutation'' [''x'' \<mapsto> VBool True]
      = Inr (\<lparr>query = Request None None [] (Some []) [], schema_query = None\<rparr>, empty_heap)"
proof -
  let ?d = "\<lparr>directive_name = ''skip'', directive_arguments = [(''if'', Variable ''x'')]\<rparr>"
  let ?vars = "[''x'' \<mapsto> VBool True]"
  have r: "example_resolver GraphQLSkipDirective_args [(''if'', Variable ''x'')] ?vars
      = Inr [(''if'', VBool True)]"
    by (simp add: example_resolver_def GraphQLSkipDirective_args_def)
  have r0: "example_resolver GraphQLSkipDirective_args [] ?vars = Inr []"
    by (simp add: example_resolver_def GraphQLSkipDirective_args_def)
  have s: "should_include_node example_resolver (Field ((leaf ''a'')\<lparr>directives := [?d]\<rparr>)) ?vars
      = Inr False"
    by (simp add: should_include_node_def r)
  have e: "evaluated example_resolver ?vars ?d"
    by (simp add: evaluated_def r)
  show ?thesis
    using r r0 s e
      directives_decide_inclusion [where gav = example_resolver
        and node = "Field ((leaf ''a'')\<lparr>directives := [?d]\<rparr>)" and vars = ?vars and b = False
        and d = "\<lparr>directive_name = ''skip'', directive_arguments = []\<rparr>" and a = "[]"
        and ds = "[]" and dargs = "[(''if'', Variable ''x'')]" and sa = "[(''if'', VBool True)]"
        and reg = example_registry and root = "''Root''" and nm = "''a''" and fd = scalar
        and va = "[]" and n = 0 and h = empty_heap and mroot = "''Mutation''"]
    by simp
qed

end
